theory Spec2Isabelle
  imports Main "HOL-Library.Word"
begin

section \<open>The JPEG decode driver of samples/chromium\_integration\<close>

text \<open>
  A shallow embedding of \<^verbatim>\<open>JPEGRsImageDecoder\<close>
  (\<^verbatim>\<open>jpeg_image_decoder.cc\<close>, \<^verbatim>\<open>jpeg_image_decoder.h\<close>).
  The class drives a decode engine that lives behind a bridge and it inherits from the
  host's \<^verbatim>\<open>ImageDecoder\<close>. Neither the engine nor the base class is part of the
  sources: the engine operations and the host operations that carry a policy
  (\<^verbatim>\<open>SetSize\<close>, \<^verbatim>\<open>InitFrameBuffer\<close>, \<^verbatim>\<open>ColorProfile::Create\<close>) are parameters
  of the model, collected in the record \<open>environment\<close>; the plain accessors of the base
  class are fields of the record \<open>ImageDecoder\<close>.
\<close>

subsection \<open>Machine integers\<close>

type_synonym uint8_t = "8 word"
type_synonym uint32_t = "32 word"
type_synonym wtf_size_t = "32 word"
type_synonym size_t = "64 word"

subsection \<open>The bridge types\<close>

datatype JpegRsStatus = Success | NeedMoreInput | Error

text \<open>Only \<^verbatim>\<open>Bgra8\<close> is named by the driver; the other enumerators are not in the sources.\<close>

datatype JpegRsPixelFormat = Bgra8 | OtherPixelFormat

record JpegRsProcessResult =
  status :: JpegRsStatus
  bytes_consumed :: size_t

record JpegRsBasicInfo =
  width :: uint32_t
  height :: uint32_t
  bits_per_sample :: uint32_t

text \<open>
  The calls that cross the bridge, in the order the driver makes them. The two operations
  that return a \<^verbatim>\<open>JpegRsProcessResult\<close> are recorded with their result.
\<close>

datatype bridge_call =
    Call_signature_check
  | Call_decoder_create
  | Call_parse_headers JpegRsProcessResult
  | Call_get_basic_info
  | Call_set_pixel_format JpegRsPixelFormat
  | Call_get_icc_profile
  | Call_decode_image_with_stride JpegRsProcessResult

subsection \<open>The host: ImageFrame and ImageDecoder\<close>

text \<open>
  Modelled from the spec: \<^verbatim>\<open>ImageFrame\<close> is not in the sources. The spec's FrameBuffer has
  a status in {Incomplete, Complete}, an alpha flag, a row stride and pixel memory the host
  may fail to supply; the driver names only \<^verbatim>\<open>kFrameComplete\<close>.
\<close>

datatype FrameStatus = kFrameIncomplete | kFrameComplete

record ImageFrame =
  frame_status :: FrameStatus
  has_alpha :: bool
  pixels_changed :: bool
  pixels :: "uint8_t list option"
  row_bytes :: size_t

text \<open>
  Modelled from the spec: a frame as \<^verbatim>\<open>frame_buffer_cache_.resize(1)\<close> default-constructs
  it: incomplete and without pixel memory.
\<close>

definition new_ImageFrame :: ImageFrame where
  "new_ImageFrame =
     \<lparr>frame_status = kFrameIncomplete, has_alpha = True, pixels_changed = False,
      pixels = None, row_bytes = 0\<rparr>"

datatype ColorProfile = ColorProfile "uint8_t list"

text \<open>
  Modelled from the spec: the state of the base class \<^verbatim>\<open>ImageDecoder\<close> that the driver
  reads or writes: the terminal failure signal, the size-available flag, the frame buffers,
  the accumulated input with its all-data-received flag, the colour behaviour and the
  embedded colour profile.
\<close>

record ImageDecoder =
  failed :: bool
  size_available :: bool
  frame_buffer_cache :: "ImageFrame list"
  data :: "uint8_t list"
  all_data_received :: bool
  ignores_color_space :: bool
  embedded_color_profile :: "ColorProfile option"

text \<open>
  Modelled from the spec: the accessors of the base class, which are not in the sources.
  \<^verbatim>\<open>SetFailed\<close> is the host's terminal mark-failed signal and \<^verbatim>\<open>Failed\<close> reads it; the
  others read the state above.
\<close>

definition Failed :: "ImageDecoder \<Rightarrow> bool" where
  "Failed d = failed d"

definition SetFailed :: "ImageDecoder \<Rightarrow> ImageDecoder" where
  "SetFailed d = d\<lparr>failed := True\<rparr>"

definition IsDecodedSizeAvailable :: "ImageDecoder \<Rightarrow> bool" where
  "IsDecodedSizeAvailable d = size_available d"

definition IsAllDataReceived :: "ImageDecoder \<Rightarrow> bool" where
  "IsAllDataReceived d = all_data_received d"

definition IgnoresColorSpace :: "ImageDecoder \<Rightarrow> bool" where
  "IgnoresColorSpace d = ignores_color_space d"

definition SetEmbeddedColorProfile :: "ColorProfile \<Rightarrow> ImageDecoder \<Rightarrow> ImageDecoder" where
  "SetEmbeddedColorProfile p d = d\<lparr>embedded_color_profile := Some p\<rparr>"

subsection \<open>The collaborators as parameters\<close>

text \<open>
  \<open>'e\<close> is the state of the engine behind \<^verbatim>\<open>rust::Box<JpegRsDecoder>\<close>. An operation
  that may change the engine returns the new engine state. The output view of the pixel
  decode, \<^verbatim>\<open>rust::Slice<uint8_t>(frame_pixels, buffer_size)\<close>, is the pair of the
  frame's pixel memory and the length the driver states for it; the pixel decode also
  returns the new contents of that memory.
\<close>

record 'e environment =
  jpeg_rs_decoder_create :: "64 word \<Rightarrow> 'e"
  jpeg_rs_signature_check :: "uint8_t list \<Rightarrow> bool"
  parse_headers :: "'e \<Rightarrow> uint8_t list \<Rightarrow> bool \<Rightarrow> JpegRsProcessResult \<times> 'e"
  get_basic_info :: "'e \<Rightarrow> JpegRsBasicInfo"
  set_pixel_format :: "'e \<Rightarrow> JpegRsPixelFormat \<Rightarrow> 'e"
  get_icc_profile :: "'e \<Rightarrow> uint8_t list"
  decode_image_with_stride ::
    "'e \<Rightarrow> uint8_t list \<Rightarrow> bool \<Rightarrow> uint8_t list \<times> size_t \<Rightarrow> size_t
       \<Rightarrow> JpegRsProcessResult \<times> uint8_t list \<times> 'e"
  SetSize :: "uint32_t \<Rightarrow> uint32_t \<Rightarrow> ImageDecoder \<Rightarrow> bool \<times> ImageDecoder"
  InitFrameBuffer :: "nat \<Rightarrow> ImageDecoder \<Rightarrow> bool \<times> ImageDecoder"
  ColorProfile_Create :: "uint8_t list \<Rightarrow> ColorProfile option"

subsection \<open>The driver\<close>

datatype DecoderState = kInitial | kHaveBasicInfo | kDecoding | kComplete | kError

text \<open>
  The members of \<^verbatim>\<open>JPEGRsImageDecoder\<close>; \<open>base\<close> is the \<^verbatim>\<open>ImageDecoder\<close> subobject and
  \<open>bridge_calls\<close> the record of the calls made across the bridge so far. A member
  \<^verbatim>\<open>name_\<close> of the C++ classes is the field \<open>name\<close> here, since an Isabelle name cannot
  end in an underscore.
\<close>

record 'e JPEGRsImageDecoder =
  base :: ImageDecoder
  decoder :: "'e option"
  decoder_state :: DecoderState
  basic_info :: JpegRsBasicInfo
  have_metadata :: bool
  is_high_bit_depth :: bool
  input_offset :: size_t
  bridge_calls :: "bridge_call list"

text \<open>The constructor: \<^verbatim>\<open>basic_info_ = {}\<close> and the default member initialisers.\<close>

definition new_JPEGRsImageDecoder :: "ImageDecoder \<Rightarrow> 'e JPEGRsImageDecoder" where
  "new_JPEGRsImageDecoder b =
     \<lparr>base = b, decoder = None, decoder_state = kInitial,
      basic_info = \<lparr>width = 0, height = 0, bits_per_sample = 0\<rparr>,
      have_metadata = False, is_high_bit_depth = False, input_offset = 0,
      bridge_calls = []\<rparr>"

definition kMaxDecodedPixels :: "64 word" where
  "kMaxDecodedPixels = 1024 * 1024 * 1024"

definition ImageIsHighBitDepth :: "'e JPEGRsImageDecoder \<Rightarrow> bool" where
  "ImageIsHighBitDepth s = is_high_bit_depth s"

text \<open>
  \<^verbatim>\<open>MatchesJPEGSignature\<close> is static: it sees the byte window only. The result comes with
  the bridge calls it made.
\<close>

definition MatchesJPEGSignature :: "'e environment \<Rightarrow> uint8_t list \<Rightarrow> bool \<times> bridge_call list" where
  "MatchesJPEGSignature env fast_reader =
     (if length fast_reader < 4 then (False, [])
      else (jpeg_rs_signature_check env (take 4 fast_reader), [Call_signature_check]))"

text \<open>
  What stops a call that C++ leaves undefined or aborts: reading the input past its end
  (\<^verbatim>\<open>data_size - input_offset_\<close> wrapped around, so that the buffer cannot be resized
  to it nor filled), and \<^verbatim>\<open>frame_buffer_cache_[0]\<close> on an empty cache.
\<close>

datatype fault = ReadPastEnd | NoFrame

text \<open>
  \<^verbatim>\<open>case DecoderState::kHaveBasicInfo\<close> of \<^verbatim>\<open>Decode\<close>: bind the frame buffer and decode
  into it. \<open>input_slice\<close> and \<open>all_input\<close> are the locals of the same name, \<open>e\<close> is
  \<^verbatim>\<open>*decoder_\<close>. The engine is given the view \<^verbatim>\<open>(frame_pixels, buffer_size)\<close>, whatever
  the size of the memory behind it, and the bytes it returns are the frame's pixel memory
  after the call. \<open>ensure_frame\<close> is
  \<^verbatim>\<open>if (frame_buffer_cache_.empty()) frame_buffer_cache_.resize(1)\<close>.
\<close>

definition ensure_frame :: "ImageDecoder \<Rightarrow> ImageDecoder" where
  "ensure_frame b =
     (if frame_buffer_cache b = [] then b\<lparr>frame_buffer_cache := [new_ImageFrame]\<rparr> else b)"

definition Decode_kHaveBasicInfo ::
  "'e environment \<Rightarrow> uint8_t list \<Rightarrow> bool \<Rightarrow> 'e \<Rightarrow> 'e JPEGRsImageDecoder
     \<Rightarrow> fault + 'e JPEGRsImageDecoder" where
  "Decode_kHaveBasicInfo env input_slice all_input e s =
     (let b1 = ensure_frame (base s);
          ok = fst (InitFrameBuffer env 0 b1);
          b2 = snd (InitFrameBuffer env 0 b1)
      in if \<not> ok then Inr (s\<lparr>base := SetFailed b2\<rparr>)
         else (case frame_buffer_cache b2 of
                 [] \<Rightarrow> Inl NoFrame
               | frame0 # rest \<Rightarrow>
                   (let frame = frame0\<lparr>has_alpha := False\<rparr>;
                        b3 = b2\<lparr>frame_buffer_cache := frame # rest\<rparr>;
                        height = height (basic_info s);
                        row_stride = row_bytes frame
                    in (case pixels frame of
                          None \<Rightarrow> Inr (s\<lparr>base := SetFailed b3\<rparr>)
                        | Some frame_pixels \<Rightarrow>
                            (let buffer_size = row_stride * ucast height;
                                 output_slice = (frame_pixels, buffer_size);
                                 r = decode_image_with_stride env e input_slice all_input
                                       output_slice row_stride;
                                 result = fst r;
                                 written = fst (snd r);
                                 s1 = s\<lparr>decoder := Some (snd (snd r)),
                                        bridge_calls :=
                                          bridge_calls s @ [Call_decode_image_with_stride result]\<rparr>;
                                 frame1 = frame\<lparr>pixels := Some written\<rparr>
                             in if status result = Error
                                then Inr (s1\<lparr>base :=
                                            SetFailed (b2\<lparr>frame_buffer_cache := frame1 # rest\<rparr>)\<rparr>)
                                else if status result = NeedMoreInput
                                then Inr (s1\<lparr>input_offset := input_offset s + bytes_consumed result,
                                             base := b2\<lparr>frame_buffer_cache :=
                                               frame1\<lparr>pixels_changed := True\<rparr> # rest\<rparr>\<rparr>)
                                else Inr (s1\<lparr>input_offset := input_offset s + bytes_consumed result,
                                             base := b2\<lparr>frame_buffer_cache :=
                                               frame1\<lparr>pixels_changed := True,
                                                      frame_status := kFrameComplete\<rparr> # rest\<rparr>,
                                             decoder_state := kComplete\<rparr>))))))"

text \<open>
  The metadata block of \<^verbatim>\<open>case DecoderState::kInitial\<close>, from the high-bit-depth check to
  \<^verbatim>\<open>decoder_state_ = DecoderState::kHaveBasicInfo\<close>; \<open>e\<close> is the engine after the header
  parse.
\<close>

definition extract_metadata :: "'e environment \<Rightarrow> 'e \<Rightarrow> 'e JPEGRsImageDecoder \<Rightarrow> 'e JPEGRsImageDecoder" where
  "extract_metadata env e s =
     (let s1 = (if bits_per_sample (basic_info s) > 8 then s\<lparr>is_high_bit_depth := True\<rparr> else s);
          s2 = s1\<lparr>decoder := Some (set_pixel_format env e Bgra8),
                 bridge_calls := bridge_calls s1 @ [Call_set_pixel_format Bgra8]\<rparr>;
          s3 = (if \<not> IgnoresColorSpace (base s2)
                then (let icc_data = get_icc_profile env (set_pixel_format env e Bgra8);
                          s' = s2\<lparr>bridge_calls := bridge_calls s2 @ [Call_get_icc_profile]\<rparr>
                      in if icc_data \<noteq> []
                         then (case ColorProfile_Create env icc_data of
                                 Some profile \<Rightarrow> s'\<lparr>base := SetEmbeddedColorProfile profile (base s')\<rparr>
                               | None \<Rightarrow> s')
                         else s')
                else s2)
      in s3\<lparr>have_metadata := True, decoder_state := kHaveBasicInfo\<rparr>)"

text \<open>\<^verbatim>\<open>case DecoderState::kInitial\<close> of \<^verbatim>\<open>Decode\<close>, with its fall-through.\<close>

definition Decode_kInitial ::
  "'e environment \<Rightarrow> uint8_t list \<Rightarrow> bool \<Rightarrow> bool \<Rightarrow> 'e \<Rightarrow> 'e JPEGRsImageDecoder
     \<Rightarrow> fault + 'e JPEGRsImageDecoder" where
  "Decode_kInitial env input_slice all_input only_size e s =
     (let r = parse_headers env e input_slice all_input;
          result = fst r;
          e1 = snd r;
          s1 = s\<lparr>decoder := Some e1, bridge_calls := bridge_calls s @ [Call_parse_headers result]\<rparr>
      in if status result = Error then Inr (s1\<lparr>base := SetFailed (base s1)\<rparr>)
         else if status result = NeedMoreInput
         then Inr (s1\<lparr>input_offset := input_offset s1 + bytes_consumed result\<rparr>)
         else (let s2 = s1\<lparr>basic_info := get_basic_info env e1,
                            bridge_calls := bridge_calls s1 @ [Call_get_basic_info],
                            input_offset := input_offset s1 + bytes_consumed result\<rparr>;
                   sz = SetSize env (width (basic_info s2)) (height (basic_info s2)) (base s2);
                   s3 = s2\<lparr>base := snd sz\<rparr>
               in if \<not> fst sz then Inr s3
                  else (let s4 = extract_metadata env e1 s3
                        in if only_size then Inr s4
                           else Decode_kHaveBasicInfo env input_slice all_input
                                  (set_pixel_format env e1 Bgra8) s4)))"

text \<open>
  \<^verbatim>\<open>Decode(index, only_size)\<close>. The input is \<^verbatim>\<open>data_\<close> read through
  \<^verbatim>\<open>FastSharedBufferReader\<close>; \<^verbatim>\<open>GetConsecutiveData(input_offset_, remaining, ...)\<close> is the
  slice of \<open>remaining\<close> bytes from \<open>input_offset\<close> on.
\<close>

definition ensure_decoder :: "'e environment \<Rightarrow> 'e JPEGRsImageDecoder \<Rightarrow> 'e JPEGRsImageDecoder" where
  "ensure_decoder env s =
     (case decoder s of
        Some e \<Rightarrow> s
      | None \<Rightarrow> s\<lparr>decoder := Some (jpeg_rs_decoder_create env kMaxDecodedPixels),
                   bridge_calls := bridge_calls s @ [Call_decoder_create],
                   decoder_state := kInitial,
                   input_offset := 0\<rparr>)"

definition Decode ::
  "'e environment \<Rightarrow> wtf_size_t \<Rightarrow> bool \<Rightarrow> 'e JPEGRsImageDecoder \<Rightarrow> fault + 'e JPEGRsImageDecoder" where
  "Decode env index only_size s =
     (if Failed (base s) then Inr s
      else if only_size \<and> IsDecodedSizeAvailable (base s) \<and> have_metadata s then Inr s
      else if \<not> only_size \<and> unat index < length (frame_buffer_cache (base s)) \<and>
              frame_status (frame_buffer_cache (base s) ! unat index) = kFrameComplete
      then Inr s
      else (let data_size = (of_nat (length (data (base s))) :: size_t);
                s0 = ensure_decoder env s;
                remaining = data_size - input_offset s0
            in if remaining > 0
               then (if length (data (base s)) < unat (input_offset s0) + unat remaining
                     then Inl ReadPastEnd
                     else (let input_slice = take (unat remaining)
                                               (drop (unat (input_offset s0)) (data (base s)));
                               all_input = IsAllDataReceived (base s)
                           in (case decoder s0 of
                                 None \<Rightarrow> Inr s0
                               | Some e \<Rightarrow>
                                   (case decoder_state s0 of
                                      kInitial \<Rightarrow>
                                        Decode_kInitial env input_slice all_input only_size e s0
                                    | kHaveBasicInfo \<Rightarrow>
                                        Decode_kHaveBasicInfo env input_slice all_input e s0
                                    | kComplete \<Rightarrow> Inr s0
                                    | kError \<Rightarrow> Inr s0
                                    | kDecoding \<Rightarrow> Inr s0))))
               else Inr s0))"

text \<open>The two entry points of the host.\<close>

definition DecodeSize :: "'e environment \<Rightarrow> 'e JPEGRsImageDecoder \<Rightarrow> fault + 'e JPEGRsImageDecoder" where
  "DecodeSize env s = Decode env 0 True s"

definition Decode_index :: "'e environment \<Rightarrow> wtf_size_t \<Rightarrow> 'e JPEGRsImageDecoder \<Rightarrow> fault + 'e JPEGRsImageDecoder" where
  "Decode_index env index s = Decode env index False s"

subsection \<open>Sessions\<close>

text \<open>
  A session is the constructor followed by what the host does: it asks for the size, asks
  for frame \<open>index\<close>, or changes its own state between two calls (more input arriving
  is one such change; \<^verbatim>\<open>OnSetData\<close> itself does nothing). The host cannot reach the
  private members of the driver. A fault ends the session.
\<close>

datatype action =
    Act_DecodeSize
  | Act_Decode wtf_size_t
  | Act_Host "ImageDecoder \<Rightarrow> ImageDecoder"

fun step :: "'e environment \<Rightarrow> action \<Rightarrow> 'e JPEGRsImageDecoder \<Rightarrow> fault + 'e JPEGRsImageDecoder" where
  "step env Act_DecodeSize s = DecodeSize env s"
| "step env (Act_Decode index) s = Decode_index env index s"
| "step env (Act_Host f) s = Inr (s\<lparr>base := f (base s)\<rparr>)"

fun run :: "'e environment \<Rightarrow> action list \<Rightarrow> 'e JPEGRsImageDecoder \<Rightarrow> fault + 'e JPEGRsImageDecoder" where
  "run env [] s = Inr s"
| "run env (a # as) s = (case step env a s of Inl f \<Rightarrow> Inl f | Inr s' \<Rightarrow> run env as s')"

subsection \<open>Vocabulary of the properties\<close>

text \<open>
  The number of bytes a recorded bridge call contributes to \<^verbatim>\<open>input_offset_\<close>: the
  \<^verbatim>\<open>bytes_consumed\<close> of a result whose status is not \<^verbatim>\<open>Error\<close>.
\<close>

fun credited :: "bridge_call \<Rightarrow> size_t" where
  "credited (Call_parse_headers r) = (if status r = Error then 0 else bytes_consumed r)"
| "credited (Call_decode_image_with_stride r) = (if status r = Error then 0 else bytes_consumed r)"
| "credited _ = 0"


fun is_set_pixel_format :: "bridge_call \<Rightarrow> bool" where
  "is_set_pixel_format (Call_set_pixel_format f) = True"
| "is_set_pixel_format _ = False"

text \<open>
  What holds of every session the constructor and the host's calls can produce: a session
  without engine is in \<^verbatim>\<open>kInitial\<close>; the metadata flag is set exactly when the state
  machine has left \<^verbatim>\<open>kInitial\<close>; the pixel format was set once if the flag is set and
  never otherwise, and the colour profile was asked for at most once, and only then.
\<close>

definition metadata_once :: "'e JPEGRsImageDecoder \<Rightarrow> bool" where
  "metadata_once s =
     ((decoder s = None \<longrightarrow> decoder_state s = kInitial) \<and>
      have_metadata s = (decoder_state s \<noteq> kInitial) \<and>
      length (filter is_set_pixel_format (bridge_calls s)) = (if have_metadata s then 1 else 0) \<and>
      count_list (bridge_calls s) Call_get_icc_profile \<le> (if have_metadata s then 1 else 0))"


text \<open>
  The session after a successful header parse, lines 153 to 156 of the driver: the basic info
  read, the offset advanced and the host asked to accept the size.
\<close>

definition size_checked :: "'e environment \<Rightarrow> uint8_t list \<Rightarrow> bool \<Rightarrow> 'e \<Rightarrow> 'e JPEGRsImageDecoder \<Rightarrow> 'e JPEGRsImageDecoder" where
  "size_checked env i a e s =
     (let r = fst (parse_headers env e i a); e1 = snd (parse_headers env e i a)
      in s\<lparr>decoder := Some e1,
            basic_info := get_basic_info env e1,
            bridge_calls := bridge_calls s @ [Call_parse_headers r, Call_get_basic_info],
            input_offset := input_offset s + bytes_consumed r,
            base := snd (SetSize env (width (get_basic_info env e1)) (height (get_basic_info env e1)) (base s))\<rparr>)"

subsection \<open>A concrete engine and host\<close>

text \<open>
  A scripted engine for concrete runs. The header parse answers with status \<open>st1\<close> and
  consumes \<open>n1\<close> bytes, or all it is offered when that is less; the pixel decode likewise
  with \<open>st2\<close> and \<open>n2\<close>, leaving the output view as it is. So neither ever reports
  more bytes than it was offered. The image is 2 by 2 with 8 bits per sample and no colour
  profile, and the engine state lists the number of bytes each parse and decode call was
  offered. The host accepts the
  size or not as told (rejecting without any other effect), and gives frame \<open>i\<close> 16 bytes
  of pixel memory with a stride of 8.
\<close>

definition example_env ::
  "JpegRsStatus \<Rightarrow> nat \<Rightarrow> JpegRsStatus \<Rightarrow> nat \<Rightarrow> bool \<Rightarrow> nat list environment" where
  "example_env st1 n1 st2 n2 size_ok =
     \<lparr>jpeg_rs_decoder_create = (\<lambda>max_pixels. []),
      jpeg_rs_signature_check = (\<lambda>bytes. take 2 bytes = [0xFF, 0xD8]),
      parse_headers = (\<lambda>e bytes all_input.
         (\<lparr>status = st1, bytes_consumed = of_nat (min n1 (length bytes))\<rparr>,
          e @ [length bytes])),
      get_basic_info = (\<lambda>e. \<lparr>width = 2, height = 2, bits_per_sample = 8\<rparr>),
      set_pixel_format = (\<lambda>e f. e),
      get_icc_profile = (\<lambda>e. []),
      decode_image_with_stride = (\<lambda>e bytes all_input out stride.
         (\<lparr>status = st2, bytes_consumed = of_nat (min n2 (length bytes))\<rparr>,
          fst out, e @ [length bytes])),
      SetSize = (\<lambda>w h d. if size_ok then (True, d\<lparr>size_available := True\<rparr>) else (False, d)),
      InitFrameBuffer = (\<lambda>i d. (True, d\<lparr>frame_buffer_cache :=
                           (frame_buffer_cache d)[i := (frame_buffer_cache d ! i)
                              \<lparr>pixels := Some (replicate 16 0), row_bytes := 8\<rparr>]\<rparr>)),
      ColorProfile_Create = (\<lambda>bytes. Some (ColorProfile bytes))\<rparr>"

text \<open>The engines and hosts of the concrete runs below.\<close>

definition env_complete :: "nat list environment" where
  "env_complete = example_env Success 2 Success 2 True"

definition env_header_error :: "nat list environment" where
  "env_header_error = example_env Error 3 Success 0 True"

definition env_starved :: "nat list environment" where
  "env_starved = example_env NeedMoreInput 3 Success 0 True"

definition env_rejecting :: "nat list environment" where
  "env_rejecting = example_env Success 2 Success 2 False"

text \<open>
  As \<open>env_complete\<close>, with a host that rejects every size and raises its failure signal
  when it does.
\<close>

definition env_refusing :: "nat list environment" where
  "env_refusing = env_complete\<lparr>SetSize := (\<lambda>w h d. (False, SetFailed d))\<rparr>"

definition env_partial :: "nat list environment" where
  "env_partial = example_env Success 2 NeedMoreInput 1 True"

definition env_overshoot :: "nat list environment" where
  "env_overshoot = example_env Success 2 NeedMoreInput 4 True"

definition example_host :: "uint8_t list \<Rightarrow> bool \<Rightarrow> ImageDecoder" where
  "example_host bytes all_received =
     \<lparr>failed = False, size_available = False, frame_buffer_cache = [], data = bytes,
      all_data_received = all_received, ignores_color_space = False,
      embedded_color_profile = None\<rparr>"

definition process_result :: "JpegRsStatus \<Rightarrow> size_t \<Rightarrow> JpegRsProcessResult" where
  "process_result st n = \<lparr>status = st, bytes_consumed = n\<rparr>"

text \<open>The first four bytes of a JPEG stream, used as input of the concrete runs.\<close>

definition soi_app0 :: "uint8_t list" where
  "soi_app0 = [0xFF, 0xD8, 0xFF, 0xE0]"

text \<open>A session as constructed, with those four bytes delivered and no more to come.\<close>

definition example_fresh :: "nat list JPEGRsImageDecoder" where
  "example_fresh = new_JPEGRsImageDecoder (example_host soi_app0 True)"

text \<open>A session that stands at \<^verbatim>\<open>kHaveBasicInfo\<close> with all of its input consumed.\<close>

definition example_waiting :: "nat list JPEGRsImageDecoder" where
  "example_waiting =
     (new_JPEGRsImageDecoder ((example_host soi_app0 True)\<lparr>size_available := True\<rparr>))
       \<lparr>decoder := Some [4], decoder_state := kHaveBasicInfo, have_metadata := True,
        input_offset := 4\<rparr>"

fun is_decode_call :: "action \<Rightarrow> bool" where
  "is_decode_call Act_DecodeSize = True"
| "is_decode_call (Act_Decode index) = True"
| "is_decode_call (Act_Host f) = False"

section \<open>Properties\<close>

subsection \<open>Unfolding\<close>

lemmas example_defs = example_env_def example_host_def process_result_def soi_app0_def
  new_JPEGRsImageDecoder_def new_ImageFrame_def kMaxDecodedPixels_def example_waiting_def
  example_fresh_def env_complete_def env_header_error_def env_starved_def env_rejecting_def
  env_partial_def env_overshoot_def env_refusing_def

lemmas driver_defs = Decode_def Decode_kInitial_def Decode_kHaveBasicInfo_def extract_metadata_def
  ensure_decoder_def ensure_frame_def Failed_def SetFailed_def IsDecodedSizeAvailable_def
  IsAllDataReceived_def IgnoresColorSpace_def SetEmbeddedColorProfile_def DecodeSize_def
  Decode_index_def

subsection \<open>The pixel stage\<close>

lemmas stage_defs = Decode_kHaveBasicInfo_def Failed_def SetFailed_def

lemma Decode_kHaveBasicInfo_private:
  assumes "Decode_kHaveBasicInfo env i a e s = Inr s'"
  shows "have_metadata s' = have_metadata s \<and> basic_info s' = basic_info s \<and>
    is_high_bit_depth s' = is_high_bit_depth s \<and>
    (decoder_state s' = decoder_state s \<or> decoder_state s' = kComplete) \<and>
    (decoder s \<noteq> None \<longrightarrow> decoder s' \<noteq> None)"
  using assms
  by (auto simp: stage_defs Let_def split: list.splits option.splits if_splits)

lemma Decode_kHaveBasicInfo_new_calls:
  assumes "Decode_kHaveBasicInfo env i a e s = Inr s'"
  shows "bridge_calls s' = bridge_calls s \<or>
         (\<exists>r. bridge_calls s' = bridge_calls s @ [Call_decode_image_with_stride r])"
  using assms
  by (auto simp: stage_defs Let_def split: list.splits option.splits if_splits)

lemma Decode_kHaveBasicInfo_no_call:
  assumes "Decode_kHaveBasicInfo env i a e s = Inr s'"
    and "bridge_calls s' = bridge_calls s"
  shows "Failed (base s') \<and> input_offset s' = input_offset s \<and>
         decoder_state s' = decoder_state s \<and> decoder s' = decoder s"
  using assms
  by (auto simp: stage_defs Let_def split: list.splits option.splits if_splits)

lemma Decode_kHaveBasicInfo_called:
  assumes "Decode_kHaveBasicInfo env i a e s = Inr s'"
    and "bridge_calls s' = bridge_calls s @ [Call_decode_image_with_stride r]"
  shows "input_offset s' = input_offset s + credited (Call_decode_image_with_stride r) \<and>
         decoder_state s' = (if status r = Success then kComplete else decoder_state s) \<and>
         (status r = Error \<longrightarrow> Failed (base s'))"
  using assms
  by (cases "status r")
     (auto simp: stage_defs Let_def split: list.splits option.splits if_splits)

lemma Decode_kHaveBasicInfo_frame:
  assumes "Decode_kHaveBasicInfo env i a e s = Inr s'"
    and "bridge_calls s' = bridge_calls s @ [Call_decode_image_with_stride r]"
    and "status r \<noteq> Error"
    and "b2 = snd (InitFrameBuffer env 0 (ensure_frame (base s)))"
  shows "fst (InitFrameBuffer env 0 (ensure_frame (base s))) \<and>
         (\<exists>f fs. frame_buffer_cache (base s') = f # fs \<and> pixels_changed f \<and> \<not> has_alpha f \<and>
           map frame_status fs = map frame_status (tl (frame_buffer_cache b2)) \<and>
           frame_status f = (if status r = Success then kFrameComplete
                             else frame_status (hd (frame_buffer_cache b2)))) \<and>
         failed (base s') = failed b2"
  using assms
  by (cases "status r")
     (auto simp: stage_defs Let_def split: list.splits option.splits if_splits)

lemma Decode_kHaveBasicInfo_result:
  assumes "Decode_kHaveBasicInfo env i a e s = Inr s'"
    and "bridge_calls s' = bridge_calls s @ [Call_decode_image_with_stride r]"
  shows "\<exists>out stride. r = fst (decode_image_with_stride env e i a out stride)"
  using assms
  by (auto simp: stage_defs Let_def split: list.splits option.splits if_splits) blast+

lemma extract_metadata_fields:
  "have_metadata (extract_metadata env e s) \<and>
   decoder_state (extract_metadata env e s) = kHaveBasicInfo \<and>
   input_offset (extract_metadata env e s) = input_offset s \<and>
   basic_info (extract_metadata env e s) = basic_info s \<and>
   decoder (extract_metadata env e s) = Some (set_pixel_format env e Bgra8) \<and>
   frame_buffer_cache (base (extract_metadata env e s)) = frame_buffer_cache (base s) \<and>
   failed (base (extract_metadata env e s)) = failed (base s) \<and>
   size_available (base (extract_metadata env e s)) = size_available (base s)"
  by (auto simp: extract_metadata_def SetEmbeddedColorProfile_def Let_def split: option.splits)

lemma extract_metadata_calls:
  "bridge_calls (extract_metadata env e s) = bridge_calls s @
     (if IgnoresColorSpace (base s) then [Call_set_pixel_format Bgra8]
      else [Call_set_pixel_format Bgra8, Call_get_icc_profile])"
  by (auto simp: extract_metadata_def Let_def split: option.splits)

subsection \<open>The call as a whole\<close>

lemma Decode_Inr_cases:
  assumes "Decode env index only_size s = Inr s'"
  obtains (early) "s' = s"
  | (idle) "s' = ensure_decoder env s"
  | (initial) e input_slice where
      "decoder (ensure_decoder env s) = Some e"
      "decoder_state (ensure_decoder env s) = kInitial"
      "Decode_kInitial env input_slice (IsAllDataReceived (base s)) only_size e
         (ensure_decoder env s) = Inr s'"
      "length input_slice + unat (input_offset (ensure_decoder env s)) \<le> length (data (base s))"
  | (pixels) e input_slice where
      "decoder (ensure_decoder env s) = Some e"
      "decoder_state (ensure_decoder env s) = kHaveBasicInfo"
      "\<not> (only_size \<and> IsDecodedSizeAvailable (base s) \<and> have_metadata s)"
      "Decode_kHaveBasicInfo env input_slice (IsAllDataReceived (base s)) e
         (ensure_decoder env s) = Inr s'"
      "length input_slice + unat (input_offset (ensure_decoder env s)) \<le> length (data (base s))"
  using assms
  by (auto simp: Decode_def Let_def split: if_splits option.splits DecoderState.splits)

lemma ensure_decoder_fields:
  "base (ensure_decoder env s) = base s \<and> have_metadata (ensure_decoder env s) = have_metadata s \<and>
   basic_info (ensure_decoder env s) = basic_info s \<and>
   is_high_bit_depth (ensure_decoder env s) = is_high_bit_depth s \<and>
   decoder (ensure_decoder env s) \<noteq> None \<and>
   bridge_calls (ensure_decoder env s) =
     bridge_calls s @ (if decoder s = None then [Call_decoder_create] else []) \<and>
   decoder_state (ensure_decoder env s) = (if decoder s = None then kInitial else decoder_state s) \<and>
   input_offset (ensure_decoder env s) = (if decoder s = None then 0 else input_offset s)"
  by (simp add: ensure_decoder_def split: option.splits)

subsection \<open>The header stage, by the answer of the header parse and of the size policy\<close>

lemma Decode_kInitial_Error:
  assumes "status (fst (parse_headers env e i a)) = Error"
  shows "Decode_kInitial env i a only_size e s =
           Inr (s\<lparr>decoder := Some (snd (parse_headers env e i a)),
                  bridge_calls := bridge_calls s @ [Call_parse_headers (fst (parse_headers env e i a))],
                  base := SetFailed (base s)\<rparr>)"
  using assms by (simp add: Decode_kInitial_def Let_def)

lemma Decode_kInitial_NeedMoreInput:
  assumes "status (fst (parse_headers env e i a)) = NeedMoreInput"
  shows "Decode_kInitial env i a only_size e s =
           Inr (s\<lparr>decoder := Some (snd (parse_headers env e i a)),
                  bridge_calls := bridge_calls s @ [Call_parse_headers (fst (parse_headers env e i a))],
                  input_offset := input_offset s + bytes_consumed (fst (parse_headers env e i a))\<rparr>)"
  using assms by (simp add: Decode_kInitial_def Let_def)

lemma Decode_kInitial_Success:
  assumes "status (fst (parse_headers env e i a)) = Success"
  shows "Decode_kInitial env i a only_size e s =
           (let e1 = snd (parse_headers env e i a);
                s3 = size_checked env i a e s
            in if \<not> fst (SetSize env (width (get_basic_info env e1)) (height (get_basic_info env e1)) (base s))
               then Inr s3
               else if only_size then Inr (extract_metadata env e1 s3)
               else Decode_kHaveBasicInfo env i a (set_pixel_format env e1 Bgra8)
                      (extract_metadata env e1 s3))"
  using assms by (simp add: Decode_kInitial_def size_checked_def Let_def)

lemma size_checked_fields:
  "bridge_calls (size_checked env i a e s) =
     bridge_calls s @ [Call_parse_headers (fst (parse_headers env e i a)), Call_get_basic_info] \<and>
   input_offset (size_checked env i a e s) =
     input_offset s + bytes_consumed (fst (parse_headers env e i a)) \<and>
   decoder_state (size_checked env i a e s) = decoder_state s \<and>
   have_metadata (size_checked env i a e s) = have_metadata s \<and>
   is_high_bit_depth (size_checked env i a e s) = is_high_bit_depth s \<and>
   decoder (size_checked env i a e s) \<noteq> None \<and>
   basic_info (size_checked env i a e s) = get_basic_info env (snd (parse_headers env e i a)) \<and>
   base (size_checked env i a e s) =
     snd (SetSize env (width (get_basic_info env (snd (parse_headers env e i a))))
            (height (get_basic_info env (snd (parse_headers env e i a)))) (base s))"
  by (simp add: size_checked_def Let_def)

lemma Decode_kInitial_cases:
  assumes "Decode_kInitial env i a only_size e s = Inr s'"
  obtains
    (error) r where "status r = Error"
      "bridge_calls s' = bridge_calls s @ [Call_parse_headers r]"
      "base s' = SetFailed (base s)" "input_offset s' = input_offset s"
      "decoder_state s' = decoder_state s" "have_metadata s' = have_metadata s"
      "basic_info s' = basic_info s" "is_high_bit_depth s' = is_high_bit_depth s"
      "decoder s' \<noteq> None" "r = fst (parse_headers env e i a)"
  | (more) r where "status r = NeedMoreInput"
      "bridge_calls s' = bridge_calls s @ [Call_parse_headers r]"
      "base s' = base s" "input_offset s' = input_offset s + bytes_consumed r"
      "decoder_state s' = decoder_state s" "have_metadata s' = have_metadata s"
      "basic_info s' = basic_info s" "is_high_bit_depth s' = is_high_bit_depth s"
      "decoder s' \<noteq> None" "r = fst (parse_headers env e i a)"
  | (rejected) r w h where "status r = Success"
      "bridge_calls s' = bridge_calls s @ [Call_parse_headers r, Call_get_basic_info]"
      "SetSize env w h (base s) = (False, base s')"
      "w = width (basic_info s')" "h = height (basic_info s')"
      "input_offset s' = input_offset s + bytes_consumed r"
      "decoder_state s' = decoder_state s" "have_metadata s' = have_metadata s"
      "is_high_bit_depth s' = is_high_bit_depth s"
      "decoder s' \<noteq> None" "r = fst (parse_headers env e i a)"
  | (accepted) r w h b s4 e2 where "status r = Success"
      "SetSize env w h (base s) = (True, b)"
      "w = width (basic_info s4)" "h = height (basic_info s4)"
      "bridge_calls s4 = bridge_calls s @ [Call_parse_headers r, Call_get_basic_info] @
         (if IgnoresColorSpace b then [Call_set_pixel_format Bgra8]
          else [Call_set_pixel_format Bgra8, Call_get_icc_profile])"
      "frame_buffer_cache (base s4) = frame_buffer_cache b" "failed (base s4) = failed b"
      "size_available (base s4) = size_available b"
      "input_offset s4 = input_offset s + bytes_consumed r"
      "decoder_state s4 = kHaveBasicInfo" "have_metadata s4" "decoder s4 \<noteq> None"
      "if only_size then s' = s4 else Decode_kHaveBasicInfo env i a e2 s4 = Inr s'"
      "r = fst (parse_headers env e i a)"
proof -
  let ?r = "fst (parse_headers env e i a)"
  let ?e1 = "snd (parse_headers env e i a)"
  let ?bi = "get_basic_info env ?e1"
  let ?sz = "SetSize env (width ?bi) (height ?bi) (base s)"
  let ?s3 = "size_checked env i a e s"
  let ?s4 = "extract_metadata env ?e1 ?s3"
  note s3 = size_checked_fields [of env i a e s]
  show thesis
  proof (cases "status ?r")
    case Error
    with assms have "s' = s\<lparr>decoder := Some ?e1,
        bridge_calls := bridge_calls s @ [Call_parse_headers ?r], base := SetFailed (base s)\<rparr>"
      by (simp add: Decode_kInitial_Error)
    with Error show thesis by (intro error [of ?r]) simp_all
  next
    case NeedMoreInput
    with assms have "s' = s\<lparr>decoder := Some ?e1,
        bridge_calls := bridge_calls s @ [Call_parse_headers ?r],
        input_offset := input_offset s + bytes_consumed ?r\<rparr>"
      by (simp add: Decode_kInitial_NeedMoreInput)
    with NeedMoreInput show thesis by (intro more [of ?r]) simp_all
  next
    case Success
    note unfold = assms [unfolded Decode_kInitial_Success [OF Success], simplified Let_def]
    show thesis
    proof (cases "fst ?sz")
      case False
      with unfold have "s' = ?s3" by simp
      with Success False s3 show thesis
        by (intro rejected [of ?r "width ?bi" "height ?bi"]) (simp_all add: prod_eq_iff)
    next
      case True
      have fin: "if only_size then s' = ?s4
                 else Decode_kHaveBasicInfo env i a (set_pixel_format env ?e1 Bgra8) ?s4 = Inr s'"
        using unfold True by (simp split: if_splits)
      from Success True s3 fin show thesis
        by (intro accepted [of ?r "width ?bi" "height ?bi" "snd ?sz" ?s4 "set_pixel_format env ?e1 Bgra8"])
           (simp_all add: prod_eq_iff extract_metadata_fields extract_metadata_calls)
    qed
  qed
qed

subsection \<open>Before the engine exists\<close>

text \<open>
  A session that has no engine yet is as the constructor left it, but for what the host
  did to its own state: a call either returns before anything is touched or creates the
  engine.
\<close>

lemma Decode_without_engine:
  assumes "Decode env index only_size s = Inr s'" and "decoder s' = None"
  shows "s' = s"
proof -
  note ed = ensure_decoder_fields [of env s]
  from assms(1) show ?thesis
  proof (cases rule: Decode_Inr_cases)
    case early
    then show ?thesis .
  next
    case idle
    with ed assms(2) show ?thesis by simp
  next
    case (initial e input_slice)
    from initial(3) show ?thesis
    proof (cases rule: Decode_kInitial_cases)
      case (error r)
      with assms(2) show ?thesis by simp
    next
      case (more r)
      with assms(2) show ?thesis by simp
    next
      case (rejected r w h)
      with assms(2) show ?thesis by simp
    next
      case (accepted r w h b s4 e2)
      show ?thesis
      proof (cases only_size)
        case True
        with accepted assms(2) show ?thesis by simp
      next
        case False
        with accepted have "Decode_kHaveBasicInfo env input_slice (IsAllDataReceived (base s)) e2 s4 = Inr s'"
          by simp
        from Decode_kHaveBasicInfo_private [OF this] accepted(12) assms(2) show ?thesis by simp
      qed
    qed
  next
    case (pixels e input_slice)
    from Decode_kHaveBasicInfo_private [OF pixels(4)] ed assms(2) show ?thesis by simp
  qed
qed

lemma without_engine_run:
  "run env acts s = Inr s' \<Longrightarrow>
   decoder s = None \<longrightarrow> decoder_state s = kInitial \<and> input_offset s = 0 \<Longrightarrow>
   decoder s' = None \<longrightarrow> decoder_state s' = kInitial \<and> input_offset s' = 0"
proof (induction acts arbitrary: s)
  case Nil
  then show ?case by simp
next
  case (Cons a acts)
  from Cons.prems(1) obtain s1 where s1: "step env a s = Inr s1" and rest: "run env acts s1 = Inr s'"
    by (auto split: sum.splits)
  have "decoder s1 = None \<longrightarrow> decoder_state s1 = kInitial \<and> input_offset s1 = 0"
  proof (cases a)
    case Act_DecodeSize
    with s1 have "Decode env 0 True s = Inr s1" by (simp add: DecodeSize_def)
    from Decode_without_engine [OF this] Cons.prems(2) show ?thesis by auto
  next
    case (Act_Decode index)
    with s1 have "Decode env index False s = Inr s1" by (simp add: Decode_index_def)
    from Decode_without_engine [OF this] Cons.prems(2) show ?thesis by auto
  next
    case (Act_Host f)
    with s1 Cons.prems(2) show ?thesis by auto
  qed
  from Cons.IH [OF rest this] show ?case .
qed

lemma without_engine_reachable:
  assumes "run env acts (new_JPEGRsImageDecoder b) = Inr s"
  shows "decoder s = None \<longrightarrow> decoder_state s = kInitial \<and> input_offset s = 0"
  using without_engine_run [OF assms] by (simp add: new_JPEGRsImageDecoder_def)

subsection \<open>The offset\<close>

lemma Decode_kHaveBasicInfo_credit:
  assumes "Decode_kHaveBasicInfo env i a e s = Inr s'"
  shows "\<exists>new. bridge_calls s' = bridge_calls s @ new \<and>
           input_offset s' = input_offset s + sum_list (map credited new) \<and>
           (\<forall>r. status r = Error \<longrightarrow>
                Call_parse_headers r \<in> set new \<or> Call_decode_image_with_stride r \<in> set new \<longrightarrow>
                Failed (base s'))"
  using Decode_kHaveBasicInfo_new_calls [OF assms]
proof
  assume same: "bridge_calls s' = bridge_calls s"
  with Decode_kHaveBasicInfo_no_call [OF assms] show ?thesis
    by (intro exI [of _ "[]"]) simp
next
  assume "\<exists>r. bridge_calls s' = bridge_calls s @ [Call_decode_image_with_stride r]"
  then obtain r where r: "bridge_calls s' = bridge_calls s @ [Call_decode_image_with_stride r]" ..
  with Decode_kHaveBasicInfo_called [OF assms r] show ?thesis
    by (intro exI [of _ "[Call_decode_image_with_stride r]"]) auto
qed

lemma Decode_kInitial_credit:
  assumes "Decode_kInitial env i a only_size e s = Inr s'"
  shows "\<exists>new. bridge_calls s' = bridge_calls s @ new \<and>
           input_offset s' = input_offset s + sum_list (map credited new) \<and>
           (\<forall>r. status r = Error \<longrightarrow>
                Call_parse_headers r \<in> set new \<or> Call_decode_image_with_stride r \<in> set new \<longrightarrow>
                Failed (base s'))"
  using assms
proof (cases rule: Decode_kInitial_cases)
  case (error r)
  then show ?thesis
    by (intro exI [of _ "[Call_parse_headers r]"]) (auto simp: Failed_def SetFailed_def)
next
  case (more r)
  then show ?thesis
    by (intro exI [of _ "[Call_parse_headers r]"]) auto
next
  case (rejected r w h)
  then show ?thesis
    by (intro exI [of _ "[Call_parse_headers r, Call_get_basic_info]"]) auto
next
  case (accepted r w h b s4 e2)
  let ?meta = "[Call_parse_headers r, Call_get_basic_info] @
         (if IgnoresColorSpace b then [Call_set_pixel_format Bgra8]
          else [Call_set_pixel_format Bgra8, Call_get_icc_profile])"
  show ?thesis
  proof (cases only_size)
    case True
    with accepted show ?thesis
      by (intro exI [of _ ?meta]) auto
  next
    case False
    with accepted have "Decode_kHaveBasicInfo env i a e2 s4 = Inr s'" by simp
    from Decode_kHaveBasicInfo_credit [OF this] obtain new where
      new: "bridge_calls s' = bridge_calls s4 @ new"
        "input_offset s' = input_offset s4 + sum_list (map credited new)"
        "\<forall>r. status r = Error \<longrightarrow>
                Call_parse_headers r \<in> set new \<or> Call_decode_image_with_stride r \<in> set new \<longrightarrow>
                Failed (base s')"
      by blast
    with accepted show ?thesis
      by (intro exI [of _ "?meta @ new"]) auto
  qed
qed

text \<open>
  C1, as amended. In every decode call the \<^verbatim>\<open>bytes_consumed\<close> of each result that the
  header parse or the pixel decode returns with status \<^verbatim>\<open>Success\<close> or
  \<^verbatim>\<open>NeedMoreInput\<close> is added to \<^verbatim>\<open>input_offset_\<close> exactly once before the call returns
  (modulo \<open>2 ^ 64\<close>); a result with status \<^verbatim>\<open>Error\<close> adds nothing, and the call then
  leaves the session failed. \<open>new\<close> are the bridge calls of this call. The hypothesis
  holds of every session reached from the constructor (\<open>without_engine_reachable\<close>).
\<close>

theorem C1_offset_credited:
  assumes "Decode env index only_size s = Inr s'"
    and "decoder s = None \<longrightarrow> input_offset s = 0"
  shows "\<exists>new. bridge_calls s' = bridge_calls s @ new \<and>
           input_offset s' = input_offset s + sum_list (map credited new) \<and>
           (\<forall>r. status r = Error \<longrightarrow>
                Call_parse_headers r \<in> set new \<or> Call_decode_image_with_stride r \<in> set new \<longrightarrow>
                Failed (base s'))"
proof -
  note ed = ensure_decoder_fields [of env s]
  let ?c = "if decoder s = None then [Call_decoder_create] else []"
  from assms(1) show ?thesis
  proof (cases rule: Decode_Inr_cases)
    case early
    then show ?thesis by (intro exI [of _ "[]"]) simp
  next
    case idle
    with ed assms(2) show ?thesis by (intro exI [of _ ?c]) simp
  next
    case (initial e input_slice)
    from Decode_kInitial_credit [OF initial(3)] obtain new where
      "bridge_calls s' = bridge_calls (ensure_decoder env s) @ new"
      "input_offset s' = input_offset (ensure_decoder env s) + sum_list (map credited new)"
      "\<forall>r. status r = Error \<longrightarrow>
                Call_parse_headers r \<in> set new \<or> Call_decode_image_with_stride r \<in> set new \<longrightarrow>
                Failed (base s')"
      by blast
    with ed assms(2) show ?thesis by (intro exI [of _ "?c @ new"]) auto
  next
    case (pixels e input_slice)
    from Decode_kHaveBasicInfo_credit [OF pixels(4)] obtain new where
      "bridge_calls s' = bridge_calls (ensure_decoder env s) @ new"
      "input_offset s' = input_offset (ensure_decoder env s) + sum_list (map credited new)"
      "\<forall>r. status r = Error \<longrightarrow>
                Call_parse_headers r \<in> set new \<or> Call_decode_image_with_stride r \<in> set new \<longrightarrow>
                Failed (base s')"
      by blast
    with ed assms(2) show ?thesis by (intro exI [of _ "?c @ new"]) auto
  qed
qed

text \<open>
  The claim as stated fails when the header parse answers \<^verbatim>\<open>Error\<close> after consuming
  three bytes: the call returns with the offset still 0, not 3.
\<close>

theorem C1_error_offset_counterexample:
  "Decode env_header_error 0 False example_fresh =
     Inr (example_fresh\<lparr>base := SetFailed (base example_fresh), decoder := Some [4],
            bridge_calls := [Call_decoder_create, Call_parse_headers (process_result Error 3)]\<rparr>) \<and>
   input_offset (projr (Decode env_header_error 0 False example_fresh)) = 0 \<and>
   input_offset example_fresh + bytes_consumed (process_result Error 3) = 3"
  by (simp add: example_defs driver_defs Let_def)

theorem C1_offset_credited_witness:
  "\<exists>s' new. Decode env_starved 0 True example_fresh = Inr s' \<and>
      bridge_calls s' = bridge_calls example_fresh @ new \<and>
      new = [Call_decoder_create, Call_parse_headers (process_result NeedMoreInput 3)] \<and>
      input_offset s' = input_offset example_fresh + sum_list (map credited new) \<and>
      input_offset s' = 3"
proof -
  let ?s' = "example_fresh\<lparr>decoder := Some [4], input_offset := 3,
            bridge_calls := [Call_decoder_create, Call_parse_headers (process_result NeedMoreInput 3)]\<rparr>"
  have run: "Decode env_starved 0 True example_fresh = Inr ?s'"
    by (simp add: example_defs driver_defs Let_def)
  have "decoder example_fresh = None \<longrightarrow> input_offset example_fresh = 0"
    by (simp add: example_defs)
  from C1_offset_credited [OF run this] obtain new where
    "bridge_calls ?s' = bridge_calls example_fresh @ new"
    "input_offset ?s' = input_offset example_fresh + sum_list (map credited new)"
    by blast
  moreover from this(1) have "new = [Call_decoder_create, Call_parse_headers (process_result NeedMoreInput 3)]"
    by (simp add: example_defs)
  ultimately show ?thesis using run by (intro exI [of _ ?s'] exI [of _ new]) simp
qed

subsection \<open>The metadata block\<close>

lemma metadata_once_new: "metadata_once (new_JPEGRsImageDecoder b)"
  by (simp add: metadata_once_def new_JPEGRsImageDecoder_def)

lemma metadata_once_host: "metadata_once s \<Longrightarrow> metadata_once (s\<lparr>base := b\<rparr>)"
  by (auto simp: metadata_once_def)

lemma metadata_once_ensure_decoder:
  "metadata_once s \<Longrightarrow> metadata_once (ensure_decoder env s)"
  by (auto simp: metadata_once_def ensure_decoder_def split: option.splits)

lemma metadata_once_pixel_stage:
  assumes "Decode_kHaveBasicInfo env i a e s = Inr s'" and "metadata_once s"
    and "decoder_state s \<noteq> kInitial"
  shows "metadata_once s'"
  using Decode_kHaveBasicInfo_private [OF assms(1)] Decode_kHaveBasicInfo_new_calls [OF assms(1)]
    assms(2,3)
  by (auto simp: metadata_once_def)

lemma metadata_once_header_stage:
  assumes "Decode_kInitial env i a only_size e s = Inr s'" and "metadata_once s"
    and "decoder_state s = kInitial"
  shows "metadata_once s'"
  using assms(1)
proof (cases rule: Decode_kInitial_cases)
  case (error r)
  with assms(2,3) show ?thesis by (auto simp: metadata_once_def)
next
  case (more r)
  with assms(2,3) show ?thesis by (auto simp: metadata_once_def)
next
  case (rejected r w h)
  with assms(2,3) show ?thesis by (auto simp: metadata_once_def)
next
  case (accepted r w h b s4 e2)
  with assms(2,3) have s4: "metadata_once s4" by (auto simp: metadata_once_def)
  show ?thesis
  proof (cases only_size)
    case True
    with accepted s4 show ?thesis by simp
  next
    case False
    with accepted have "Decode_kHaveBasicInfo env i a e2 s4 = Inr s'" by simp
    from metadata_once_pixel_stage [OF this s4] accepted show ?thesis by simp
  qed
qed

lemma metadata_once_Decode:
  assumes "Decode env index only_size s = Inr s'" and "metadata_once s"
  shows "metadata_once s'"
  using assms(1)
proof (cases rule: Decode_Inr_cases)
  case early
  with assms(2) show ?thesis by simp
next
  case idle
  with assms(2) show ?thesis by (simp add: metadata_once_ensure_decoder)
next
  case (initial e input_slice)
  from metadata_once_header_stage [OF initial(3) metadata_once_ensure_decoder [OF assms(2)] initial(2)]
  show ?thesis .
next
  case (pixels e input_slice)
  from metadata_once_pixel_stage [OF pixels(4) metadata_once_ensure_decoder [OF assms(2)]] pixels(2)
  show ?thesis by simp
qed

lemma metadata_once_run:
  "run env acts s = Inr s' \<Longrightarrow> metadata_once s \<Longrightarrow> metadata_once s'"
proof (induction acts arbitrary: s)
  case Nil
  then show ?case by simp
next
  case (Cons a acts)
  from Cons.prems(1) obtain s1 where s1: "step env a s = Inr s1" and rest: "run env acts s1 = Inr s'"
    by (auto split: sum.splits)
  have "metadata_once s1"
  proof (cases a)
    case Act_DecodeSize
    with s1 Cons.prems(2) show ?thesis by (auto simp: DecodeSize_def dest: metadata_once_Decode)
  next
    case (Act_Decode index)
    with s1 Cons.prems(2) show ?thesis by (auto simp: Decode_index_def dest: metadata_once_Decode)
  next
    case (Act_Host f)
    with s1 Cons.prems(2) show ?thesis by (auto simp: metadata_once_host)
  qed
  with Cons.IH rest show ?case by blast
qed








subsection \<open>A rejected size\<close>

text \<open>
  When the host rejects the size, the header stage returns the session as the host's
  \<^verbatim>\<open>SetSize\<close> left it (lines 156 to 158): the flag \<^verbatim>\<open>have_metadata_\<close> is not set, the
  state machine stays in \<^verbatim>\<open>kInitial\<close>, and the failure signal is the one that
  \<^verbatim>\<open>SetSize\<close>, a member of the host's base class, left.
\<close>

lemma Decode_kInitial_rejected:
  assumes "status (fst (parse_headers env e i a)) = Success"
    and "\<not> fst (SetSize env (width (get_basic_info env (snd (parse_headers env e i a))))
                  (height (get_basic_info env (snd (parse_headers env e i a)))) (base s))"
  shows "Decode_kInitial env i a only_size e s = Inr (size_checked env i a e s) \<and>
         Failed (base (size_checked env i a e s)) =
           Failed (snd (SetSize env (width (get_basic_info env (snd (parse_headers env e i a))))
                          (height (get_basic_info env (snd (parse_headers env e i a)))) (base s))) \<and>
         have_metadata (size_checked env i a e s) = have_metadata s \<and>
         decoder_state (size_checked env i a e s) = decoder_state s"
  using assms
  by (simp add: Decode_kInitial_Success Let_def size_checked_fields Failed_def)



subsection \<open>Size-only calls\<close>



text \<open>
  With a host whose \<^verbatim>\<open>SetSize\<close> reports the size as available when it accepts it, and
  which does not withdraw that, a session that has left \<^verbatim>\<open>kInitial\<close> has the metadata and
  an available size: the state in which a size-only call returns at once.
\<close>

lemma size_known_Decode:
  assumes "Decode env index only_size s = Inr s'"
    and "\<forall>w h d. fst (SetSize env w h d) \<longrightarrow> size_available (snd (SetSize env w h d))"
    and "\<forall>i d. size_available d \<longrightarrow> size_available (snd (InitFrameBuffer env i d))"
    and "metadata_once s"
    and "decoder_state s \<noteq> kInitial \<longrightarrow> size_available (base s)"
  shows "decoder_state s' \<noteq> kInitial \<longrightarrow> size_available (base s')"
proof -
  note ed = ensure_decoder_fields [of env s]
  have stage: "size_available (base t')"
    if "Decode_kHaveBasicInfo env i a e t = Inr t'" and "size_available (base t)" for i a e t t'
    using that assms(3)
    by (auto simp: stage_defs ensure_frame_def Let_def split: list.splits option.splits if_splits)
  from assms(4) have none: "decoder s = None \<longrightarrow> decoder_state s = kInitial"
    by (simp add: metadata_once_def)
  from assms(1) show ?thesis
  proof (cases rule: Decode_Inr_cases)
    case early
    with assms(5) show ?thesis by simp
  next
    case idle
    with ed assms(5) none show ?thesis by (auto split: if_splits)
  next
    case (initial e input_slice)
    from initial(3) show ?thesis
    proof (cases rule: Decode_kInitial_cases)
      case (error r)
      with initial(2) show ?thesis by simp
    next
      case (more r)
      with initial(2) show ?thesis by simp
    next
      case (rejected r w h)
      with initial(2) show ?thesis by simp
    next
      case (accepted r w h b s4 e2)
      from accepted(2) assms(2) have "size_available b" by (metis fst_conv snd_conv)
      with accepted(8) have a4: "size_available (base s4)" by simp
      show ?thesis
      proof (cases only_size)
        case True
        with accepted a4 show ?thesis by simp
      next
        case False
        with accepted have "Decode_kHaveBasicInfo env input_slice (IsAllDataReceived (base s)) e2 s4 = Inr s'"
          by simp
        from stage [OF this a4] show ?thesis by simp
      qed
    qed
  next
    case (pixels e input_slice)
    from pixels(2) ed assms(5) have "size_available (base (ensure_decoder env s))"
      by (auto split: if_splits)
    from stage [OF pixels(4) this] show ?thesis by simp
  qed
qed

lemma size_known_run:
  assumes "\<forall>w h d. fst (SetSize env w h d) \<longrightarrow> size_available (snd (SetSize env w h d))"
    and "\<forall>i d. size_available d \<longrightarrow> size_available (snd (InitFrameBuffer env i d))"
  shows "run env acts s = Inr s' \<Longrightarrow>
         \<forall>f. Act_Host f \<in> set acts \<longrightarrow> (\<forall>d. size_available d \<longrightarrow> size_available (f d)) \<Longrightarrow>
         metadata_once s \<Longrightarrow>
         decoder_state s \<noteq> kInitial \<longrightarrow> size_available (base s) \<Longrightarrow>
         decoder_state s' \<noteq> kInitial \<longrightarrow> size_available (base s')"
proof (induction acts arbitrary: s)
  case Nil
  then show ?case by simp
next
  case (Cons a acts)
  from Cons.prems(1) obtain s1 where s1: "step env a s = Inr s1" and rest: "run env acts s1 = Inr s'"
    by (auto split: sum.splits)
  have m1: "metadata_once s1"
    using metadata_once_run [of env "[a]" s s1] s1 Cons.prems(3) by simp
  have k1: "decoder_state s1 \<noteq> kInitial \<longrightarrow> size_available (base s1)"
  proof (cases a)
    case Act_DecodeSize
    with s1 have "Decode env 0 True s = Inr s1" by (simp add: DecodeSize_def)
    from size_known_Decode [OF this assms Cons.prems(3,4)] show ?thesis .
  next
    case (Act_Decode index)
    with s1 have "Decode env index False s = Inr s1" by (simp add: Decode_index_def)
    from size_known_Decode [OF this assms Cons.prems(3,4)] show ?thesis .
  next
    case (Act_Host f)
    with s1 Cons.prems(2,4) show ?thesis by auto
  qed
  from Cons.prems(2) have "\<forall>f. Act_Host f \<in> set acts \<longrightarrow> (\<forall>d. size_available d \<longrightarrow> size_available (f d))"
    by simp
  from Cons.IH [OF rest this m1 k1] show ?case .
qed

lemma size_known_reachable:
  assumes "\<forall>w h d. fst (SetSize env w h d) \<longrightarrow> size_available (snd (SetSize env w h d))"
    and "\<forall>i d. size_available d \<longrightarrow> size_available (snd (InitFrameBuffer env i d))"
    and "\<forall>f. Act_Host f \<in> set acts \<longrightarrow> (\<forall>d. size_available d \<longrightarrow> size_available (f d))"
    and "run env acts (new_JPEGRsImageDecoder b) = Inr s"
  shows "decoder_state s = kHaveBasicInfo \<longrightarrow> IsDecodedSizeAvailable (base s) \<and> have_metadata s"
proof -
  have "decoder_state (new_JPEGRsImageDecoder b) \<noteq> kInitial \<longrightarrow>
          size_available (base (new_JPEGRsImageDecoder b :: 'a JPEGRsImageDecoder))"
    by (simp add: new_JPEGRsImageDecoder_def)
  from size_known_run [OF assms(1,2,4,3) metadata_once_new this]
    metadata_once_run [OF assms(4) metadata_once_new]
  show ?thesis by (auto simp: metadata_once_def IsDecodedSizeAvailable_def)
qed



subsection \<open>The pixel decode call within a decode call\<close>

text \<open>
  A pixel decode call among the bridge calls of a decode call is its last one: the call
  went through the pixel stage, from the session \<open>s4\<close> that the lazily created engine and,
  in a fused call, the header stage left.
\<close>

lemma Decode_pixel_call:
  assumes "Decode env index only_size s = Inr s'"
    and "bridge_calls s' = bridge_calls s @ new"
    and "Call_decode_image_with_stride r \<in> set new"
  obtains s4 input_slice e2 before where
    "Decode_kHaveBasicInfo env input_slice (IsAllDataReceived (base s)) e2 s4 = Inr s'"
    "bridge_calls s' = bridge_calls s4 @ [Call_decode_image_with_stride r]"
    "new = before @ [Call_decode_image_with_stride r]"
    "bridge_calls s4 = bridge_calls s @ before"
    "input_offset s4 =
       (if decoder s = None then 0 else input_offset s) + sum_list (map credited before)"
    "decoder_state s4 = kHaveBasicInfo"
    "\<not> only_size \<or> \<not> (IsDecodedSizeAvailable (base s) \<and> have_metadata s)"
    "\<not> failed (base s)"
    "failed (base s4) = failed (base s) \<or>
       (\<exists>w h. failed (base s4) = failed (snd (SetSize env w h (base s))))"
    "(decoder_state s = kHaveBasicInfo \<and> decoder s \<noteq> None \<and> (\<forall>r1. Call_parse_headers r1 \<notin> set before)) \<or>
     (\<not> only_size \<and> (decoder s = None \<or> decoder_state s = kInitial) \<and>
      (\<exists>r1. Call_parse_headers r1 \<in> set before \<and> status r1 = Success))"
proof -
  note ed = ensure_decoder_fields [of env s]
  note found = that
  let ?c = "if decoder s = None then [Call_decoder_create] else []"
  let ?s0 = "ensure_decoder env s"
  have nf: "\<not> failed (base s) \<or> s' = s"
    using assms(1) by (auto simp: Decode_def Failed_def split: if_splits)
  have stage: thesis
    if st: "Decode_kHaveBasicInfo env input_slice (IsAllDataReceived (base s)) e2 s4 = Inr s'"
      and c4: "bridge_calls s4 = bridge_calls s @ before"
      and nodec: "\<forall>r. Call_decode_image_with_stride r \<notin> set before"
      and o4: "input_offset s4 =
         (if decoder s = None then 0 else input_offset s) + sum_list (map credited before)"
      and d4: "decoder_state s4 = kHaveBasicInfo"
      and f4: "failed (base s4) = failed (base s) \<or>
         (\<exists>w h. failed (base s4) = failed (snd (SetSize env w h (base s))))"
      and how: "(decoder_state s = kHaveBasicInfo \<and> decoder s \<noteq> None \<and> (\<forall>r1. Call_parse_headers r1 \<notin> set before)) \<or>
         (\<not> only_size \<and> (decoder s = None \<or> decoder_state s = kInitial) \<and>
          (\<exists>r1. Call_parse_headers r1 \<in> set before \<and> status r1 = Success))"
      and os: "\<not> only_size \<or> \<not> (IsDecodedSizeAvailable (base s) \<and> have_metadata s)"
    for input_slice e2 s4 before
  proof -
    from Decode_kHaveBasicInfo_new_calls [OF st] c4 assms(2)
    have "new = before \<or> (\<exists>r'. new = before @ [Call_decode_image_with_stride r'])"
      by auto
    with assms(3) nodec have n: "new = before @ [Call_decode_image_with_stride r]" by auto
    with assms(2) c4 have c: "bridge_calls s' = bridge_calls s4 @ [Call_decode_image_with_stride r]"
      by simp
    from nf assms(2) n have nf': "\<not> failed (base s)" by auto
    from st c n c4 o4 d4 os nf' f4 how show thesis by (rule found)
  qed
  from assms(1) show thesis
  proof (cases rule: Decode_Inr_cases)
    case early
    with assms(2,3) show ?thesis by simp
  next
    case idle
    with ed assms(2,3) show ?thesis by (auto split: if_splits)
  next
    case (initial e input_slice)
    from initial(2) ed have k: "decoder s = None \<or> decoder_state s = kInitial"
      by (auto split: if_splits)
    from initial(3) show ?thesis
    proof (cases rule: Decode_kInitial_cases)
      case (error r1)
      with ed assms(2,3) show ?thesis by (auto split: if_splits)
    next
      case (more r1)
      with ed assms(2,3) show ?thesis by (auto split: if_splits)
    next
      case (rejected r1 w h)
      with ed assms(2,3) show ?thesis by (auto split: if_splits)
    next
      case (accepted r1 w h b s4 e2)
      let ?before = "?c @ [Call_parse_headers r1, Call_get_basic_info] @
         (if IgnoresColorSpace b then [Call_set_pixel_format Bgra8]
          else [Call_set_pixel_format Bgra8, Call_get_icc_profile])"
      from accepted ed have c4: "bridge_calls s4 = bridge_calls s @ ?before" by simp
      have nodec: "\<forall>r. Call_decode_image_with_stride r \<notin> set ?before" by simp
      from accepted ed have o4: "input_offset s4 =
         (if decoder s = None then 0 else input_offset s) + sum_list (map credited ?before)"
        by simp
      from accepted(2,7) ed have f4: "failed (base s4) = failed (base s) \<or>
         (\<exists>w h. failed (base s4) = failed (snd (SetSize env w h (base s))))"
        by (metis snd_conv)
      show ?thesis
      proof (cases only_size)
        case True
        with accepted c4 assms(2,3) show ?thesis by (auto split: if_splits)
      next
        case False
        with accepted have st: "Decode_kHaveBasicInfo env input_slice (IsAllDataReceived (base s)) e2 s4 = Inr s'"
          by simp
        from accepted(1) k False
        have how: "(decoder_state s = kHaveBasicInfo \<and> decoder s \<noteq> None \<and> (\<forall>r1. Call_parse_headers r1 \<notin> set ?before)) \<or>
         (\<not> only_size \<and> (decoder s = None \<or> decoder_state s = kInitial) \<and>
          (\<exists>r1. Call_parse_headers r1 \<in> set ?before \<and> status r1 = Success))"
          by auto
        from False have os: "\<not> only_size \<or> \<not> (IsDecodedSizeAvailable (base s) \<and> have_metadata s)"
          by simp
        from stage [OF st c4 nodec o4 accepted(10) f4 how os] show ?thesis .
      qed
    qed
  next
    case (pixels e input_slice)
    from pixels(2) ed have k: "decoder_state s = kHaveBasicInfo \<and> decoder s \<noteq> None"
      by (auto split: if_splits)
    with ed have c4: "bridge_calls ?s0 = bridge_calls s @ []"
      and o4: "input_offset ?s0 =
         (if decoder s = None then 0 else input_offset s) + sum_list (map credited [])"
      and f4: "failed (base ?s0) = failed (base s) \<or>
         (\<exists>w h. failed (base ?s0) = failed (snd (SetSize env w h (base s))))"
      by auto
    from k have how: "(decoder_state s = kHaveBasicInfo \<and> decoder s \<noteq> None \<and> (\<forall>r1. Call_parse_headers r1 \<notin> set [])) \<or>
         (\<not> only_size \<and> (decoder s = None \<or> decoder_state s = kInitial) \<and>
          (\<exists>r1. Call_parse_headers r1 \<in> set [] \<and> status r1 = Success))"
      by simp
    from pixels(3) have os: "\<not> only_size \<or> \<not> (IsDecodedSizeAvailable (base s) \<and> have_metadata s)"
      by blast
    from stage [OF pixels(4) c4 _ o4 pixels(2) f4 how os] show ?thesis by simp
  qed
qed

subsection \<open>A pixel decode that needs more input\<close>




subsection \<open>Header parse and pixel decode in one call\<close>

lemma Decode_header_success:
  assumes "Decode env index only_size s = Inr s'"
    and "bridge_calls s' = bridge_calls s @ new"
    and "Call_parse_headers r1 \<in> set new" and "status r1 = Success"
    and "\<not> only_size"
    and "fst (SetSize env (width (basic_info s')) (height (basic_info s')) (base s))"
  shows "\<exists>input_slice e2 s4.
           Decode_kHaveBasicInfo env input_slice (IsAllDataReceived (base s)) e2 s4 = Inr s' \<and>
           decoder_state s4 = kHaveBasicInfo \<and> have_metadata s4"
proof -
  note ed = ensure_decoder_fields [of env s]
  from assms(1) show ?thesis
  proof (cases rule: Decode_Inr_cases)
    case early
    with assms(2,3) show ?thesis by simp
  next
    case idle
    with ed assms(2,3) show ?thesis by (auto split: if_splits)
  next
    case (initial e input_slice)
    from initial(3) show ?thesis
    proof (cases rule: Decode_kInitial_cases)
      case (error r)
      with ed assms(2,3,4) show ?thesis by (auto split: if_splits)
    next
      case (more r)
      with ed assms(2,3,4) show ?thesis by (auto split: if_splits)
    next
      case (rejected r w h)
      with ed assms(6) show ?thesis by simp
    next
      case (accepted r w h b s4 e2)
      with assms(5) show ?thesis by auto
    qed
  next
    case (pixels e input_slice)
    from Decode_kHaveBasicInfo_new_calls [OF pixels(4)] ed assms(2,3) show ?thesis
      by (auto split: if_splits)
  qed
qed

lemma Decode_transition:
  assumes "Decode env index only_size s = Inr s'"
    and "bridge_calls s' = bridge_calls s @ new"
    and "decoder s = None \<longrightarrow> decoder_state s = kInitial"
  shows "decoder_state s' = decoder_state s \<or>
         (decoder_state s = kInitial \<and> decoder_state s' = kHaveBasicInfo) \<or>
         (decoder_state s = kHaveBasicInfo \<and> decoder_state s' = kComplete) \<or>
         (decoder_state s = kInitial \<and> decoder_state s' = kComplete \<and> \<not> only_size \<and>
          (\<exists>r1 r2. Call_parse_headers r1 \<in> set new \<and> status r1 = Success \<and>
                   Call_decode_image_with_stride r2 \<in> set new \<and> status r2 = Success))"
proof -
  note ed = ensure_decoder_fields [of env s]
  from ed assms(3) have st0: "decoder_state (ensure_decoder env s) = decoder_state s"
    by (auto split: if_splits)
  from assms(1) show ?thesis
  proof (cases rule: Decode_Inr_cases)
    case early
    then show ?thesis by simp
  next
    case idle
    with st0 show ?thesis by simp
  next
    case (initial e input_slice)
    from initial(2) st0 have k: "decoder_state s = kInitial" by simp
    from initial(3) show ?thesis
    proof (cases rule: Decode_kInitial_cases)
      case (error r)
      with st0 show ?thesis by simp
    next
      case (more r)
      with st0 show ?thesis by simp
    next
      case (rejected r w h)
      with st0 show ?thesis by simp
    next
      case (accepted r w h b s4 e2)
      show ?thesis
      proof (cases only_size)
        case True
        with accepted k show ?thesis by simp
      next
        case False
        with accepted have st: "Decode_kHaveBasicInfo env input_slice (IsAllDataReceived (base s)) e2 s4 = Inr s'"
          by simp
        from Decode_kHaveBasicInfo_new_calls [OF st] show ?thesis
        proof
          assume "bridge_calls s' = bridge_calls s4"
          from Decode_kHaveBasicInfo_no_call [OF st this] accepted(10) k show ?thesis by simp
        next
          assume "\<exists>r2. bridge_calls s' = bridge_calls s4 @ [Call_decode_image_with_stride r2]"
          then obtain r2 where c: "bridge_calls s' = bridge_calls s4 @ [Call_decode_image_with_stride r2]" ..
          from c accepted(5) ed assms(2)
          have mem: "Call_parse_headers r \<in> set new" "Call_decode_image_with_stride r2 \<in> set new"
            by (auto split: if_splits)
          from Decode_kHaveBasicInfo_called [OF st c] accepted(1,10) k False mem show ?thesis
            by (cases "status r2 = Success") auto
        qed
      qed
    qed
  next
    case (pixels e input_slice)
    from Decode_kHaveBasicInfo_private [OF pixels(4)] pixels(2) st0 show ?thesis by auto
  qed
qed

text \<open>
  C8, as amended. \<open>new\<close> are the bridge calls of the decode call. A full-decode call
  whose header parse succeeds (so it was issued in \<^verbatim>\<open>kInitial\<close>) and whose size the host
  accepts goes on, within the same call, into the pixel stage, run from a session that has
  the metadata and stands in \<^verbatim>\<open>kHaveBasicInfo\<close>. If the pixel decode of a call succeeds,
  that call leaves the state machine in \<^verbatim>\<open>kComplete\<close> and the first frame marked changed
  and complete. A call moves the state machine by at most one transition, except from
  \<^verbatim>\<open>kInitial\<close> to \<^verbatim>\<open>kComplete\<close>, which only a full-decode call does whose header parse
  and pixel decode both succeed.
\<close>

theorem C8_fused_full_decode:
  assumes "Decode env index only_size s = Inr s'"
    and "bridge_calls s' = bridge_calls s @ new"
    and "decoder s = None \<longrightarrow> decoder_state s = kInitial"
  shows "(\<not> only_size \<and> (\<exists>r1. Call_parse_headers r1 \<in> set new \<and> status r1 = Success) \<and>
          fst (SetSize env (width (basic_info s')) (height (basic_info s')) (base s)) \<longrightarrow>
            (\<exists>input_slice e2 s4.
               Decode_kHaveBasicInfo env input_slice (IsAllDataReceived (base s)) e2 s4 = Inr s' \<and>
               decoder_state s4 = kHaveBasicInfo \<and> have_metadata s4)) \<and>
         ((\<exists>r2. Call_decode_image_with_stride r2 \<in> set new \<and> status r2 = Success) \<longrightarrow>
            decoder_state s' = kComplete \<and>
            (\<exists>f fs. frame_buffer_cache (base s') = f # fs \<and> pixels_changed f \<and>
                    frame_status f = kFrameComplete)) \<and>
         (decoder_state s' = decoder_state s \<or>
          (decoder_state s = kInitial \<and> decoder_state s' = kHaveBasicInfo) \<or>
          (decoder_state s = kHaveBasicInfo \<and> decoder_state s' = kComplete) \<or>
          (decoder_state s = kInitial \<and> decoder_state s' = kComplete \<and> \<not> only_size \<and>
           (\<exists>r1 r2. Call_parse_headers r1 \<in> set new \<and> status r1 = Success \<and>
                    Call_decode_image_with_stride r2 \<in> set new \<and> status r2 = Success)))"
proof (intro conjI impI)
  assume "\<not> only_size \<and> (\<exists>r1. Call_parse_headers r1 \<in> set new \<and> status r1 = Success) \<and>
          fst (SetSize env (width (basic_info s')) (height (basic_info s')) (base s))"
  with Decode_header_success [OF assms(1,2)]
  show "\<exists>input_slice e2 s4.
               Decode_kHaveBasicInfo env input_slice (IsAllDataReceived (base s)) e2 s4 = Inr s' \<and>
               decoder_state s4 = kHaveBasicInfo \<and> have_metadata s4"
    by blast
next
  assume "\<exists>r2. Call_decode_image_with_stride r2 \<in> set new \<and> status r2 = Success"
  then obtain r2 where r2: "Call_decode_image_with_stride r2 \<in> set new" "status r2 = Success"
    by blast
  from assms(1,2) r2(1) have "decoder_state s' = kComplete \<and>
            (\<exists>f fs. frame_buffer_cache (base s') = f # fs \<and> pixels_changed f \<and>
                    frame_status f = kFrameComplete)"
  proof (cases rule: Decode_pixel_call)
    case (1 s4 input_slice e2 before)
    from r2(2) have ne: "status r2 \<noteq> Error" by simp
    from Decode_kHaveBasicInfo_called [OF 1(1,2)] Decode_kHaveBasicInfo_frame [OF 1(1,2) ne refl] r2(2)
    show ?thesis by auto
  qed
  then show "decoder_state s' = kComplete"
    and "\<exists>f fs. frame_buffer_cache (base s') = f # fs \<and> pixels_changed f \<and>
                    frame_status f = kFrameComplete"
    by blast+
next
  from Decode_transition [OF assms]
  show "decoder_state s' = decoder_state s \<or>
          (decoder_state s = kInitial \<and> decoder_state s' = kHaveBasicInfo) \<or>
          (decoder_state s = kHaveBasicInfo \<and> decoder_state s' = kComplete) \<or>
          (decoder_state s = kInitial \<and> decoder_state s' = kComplete \<and> \<not> only_size \<and>
           (\<exists>r1 r2. Call_parse_headers r1 \<in> set new \<and> status r1 = Success \<and>
                    Call_decode_image_with_stride r2 \<in> set new \<and> status r2 = Success))" .
qed

text \<open>
  The claim as stated lets every successful header parse of a full-decode call continue
  into the pixel decode. When the host rejects the size the call stops after the header
  parse: no frame is bound, no pixel decode is called, the state machine stays in
  \<^verbatim>\<open>kInitial\<close>.
\<close>

theorem C8_rejected_size_stops_counterexample:
  "\<not> isl (Decode env_rejecting 0 False example_fresh) \<and>
   decoder_state example_fresh = kInitial \<and>
   bridge_calls (projr (Decode env_rejecting 0 False example_fresh)) =
     [Call_decoder_create, Call_parse_headers (process_result Success 2), Call_get_basic_info] \<and>
   status (process_result Success 2) = Success \<and>
   decoder_state (projr (Decode env_rejecting 0 False example_fresh)) = kInitial \<and>
   frame_buffer_cache (base (projr (Decode env_rejecting 0 False example_fresh))) = []"
  by (simp add: example_defs driver_defs Let_def)

theorem C8_fused_full_decode_witness:
  "\<exists>s'. Decode env_complete 0 False example_fresh = Inr s' \<and>
     bridge_calls s' = bridge_calls example_fresh @
       [Call_decoder_create, Call_parse_headers (process_result Success 2), Call_get_basic_info,
        Call_set_pixel_format Bgra8, Call_get_icc_profile,
        Call_decode_image_with_stride (process_result Success 2)] \<and>
     decoder_state example_fresh = kInitial \<and> decoder_state s' = kComplete \<and>
     map frame_status (frame_buffer_cache (base s')) = [kFrameComplete] \<and>
     map pixels_changed (frame_buffer_cache (base s')) = [True]"
proof -
  let ?new = "[Call_decoder_create, Call_parse_headers (process_result Success 2),
        Call_get_basic_info, Call_set_pixel_format Bgra8, Call_get_icc_profile,
        Call_decode_image_with_stride (process_result Success 2)]"
  let ?s' = "example_fresh\<lparr>base := (base example_fresh)\<lparr>size_available := True,
        frame_buffer_cache := [\<lparr>frame_status = kFrameComplete, has_alpha = False,
           pixels_changed = True, pixels = Some (replicate 16 0), row_bytes = 8\<rparr>]\<rparr>,
      decoder := Some [4, 4], decoder_state := kComplete,
      basic_info := \<lparr>width = 2, height = 2, bits_per_sample = 8\<rparr>,
      have_metadata := True, input_offset := 4, bridge_calls := ?new\<rparr>"
  have run: "Decode env_complete 0 False example_fresh = Inr ?s'"
    by (simp add: example_defs driver_defs Let_def)
  have calls: "bridge_calls ?s' = bridge_calls example_fresh @ ?new"
    by (simp add: example_defs)
  have fresh: "decoder example_fresh = None \<longrightarrow> decoder_state example_fresh = kInitial"
    by (simp add: example_defs)
  have ok: "\<exists>r2. Call_decode_image_with_stride r2 \<in> set ?new \<and> status r2 = Success"
    by (intro exI [of _ "process_result Success 2"]) (simp add: process_result_def)
  from C8_fused_full_decode [OF run calls fresh] ok
  have "decoder_state ?s' = kComplete" by blast
  with run calls show ?thesis
    by (intro exI [of _ ?s']) (simp add: example_defs)
qed

subsection \<open>A failed session\<close>

lemma Decode_appends:
  assumes "Decode env index only_size s = Inr s'"
  shows "\<exists>new. bridge_calls s' = bridge_calls s @ new"
proof -
  note ed = ensure_decoder_fields [of env s]
  from assms show ?thesis
  proof (cases rule: Decode_Inr_cases)
    case early
    then show ?thesis by simp
  next
    case idle
    with ed show ?thesis by simp
  next
    case (initial e input_slice)
    from Decode_kInitial_credit [OF initial(3)] ed show ?thesis by auto
  next
    case (pixels e input_slice)
    from Decode_kHaveBasicInfo_credit [OF pixels(4)] ed show ?thesis by auto
  qed
qed

text \<open>
  The driver never assigns \<^verbatim>\<open>kError\<close> or \<^verbatim>\<open>kDecoding\<close>: a session is in \<^verbatim>\<open>kInitial\<close>,
  \<^verbatim>\<open>kHaveBasicInfo\<close> or \<^verbatim>\<open>kComplete\<close>, and its terminal failure is the host's signal.
\<close>

lemma reachable_states:
  "run env acts s = Inr s' \<Longrightarrow> metadata_once s \<Longrightarrow>
   decoder_state s \<in> {kInitial, kHaveBasicInfo, kComplete} \<Longrightarrow>
   decoder_state s' \<in> {kInitial, kHaveBasicInfo, kComplete}"
proof (induction acts arbitrary: s)
  case Nil
  then show ?case by simp
next
  case (Cons a acts)
  from Cons.prems(1) obtain s1 where s1: "step env a s = Inr s1" and rest: "run env acts s1 = Inr s'"
    by (auto split: sum.splits)
  have m1: "metadata_once s1"
    using metadata_once_run [of env "[a]" s s1] s1 Cons.prems(2) by simp
  from Cons.prems(2) have none: "decoder s = None \<longrightarrow> decoder_state s = kInitial"
    by (simp add: metadata_once_def)
  have call: "decoder_state s1 \<in> {kInitial, kHaveBasicInfo, kComplete}"
    if d: "Decode env index only_size s = Inr s1" for index only_size
  proof -
    from Decode_appends [OF d] obtain new where "bridge_calls s1 = bridge_calls s @ new" ..
    from Decode_transition [OF d this none] Cons.prems(3) show ?thesis by auto
  qed
  have "decoder_state s1 \<in> {kInitial, kHaveBasicInfo, kComplete}"
  proof (cases a)
    case Act_DecodeSize
    with s1 have "Decode env 0 True s = Inr s1" by (simp add: DecodeSize_def)
    then show ?thesis by (rule call)
  next
    case (Act_Decode index)
    with s1 have "Decode env index False s = Inr s1" by (simp add: Decode_index_def)
    then show ?thesis by (rule call)
  next
    case (Act_Host f)
    with s1 Cons.prems(3) show ?thesis by auto
  qed
  from Cons.IH [OF rest m1 this] show ?case .
qed

lemma run_failed:
  "Failed (base s) \<Longrightarrow> list_all is_decode_call acts \<Longrightarrow> run env acts s = Inr s"
proof (induction acts)
  case Nil
  then show ?case by simp
next
  case (Cons a acts)
  then show ?case
    by (cases a) (simp_all add: Decode_def DecodeSize_def Decode_index_def)
qed

text \<open>
  C6. Once the host's failure signal is set, a decode call returns at its first statement:
  the session, the frame buffers and the record of bridge calls are what they were, so
  the signal stays set and no engine operation is invoked; the same holds for any
  sequence of decode calls (size-only or full) that follows.
\<close>

theorem C6_failed_session_is_absorbing:
  assumes "Failed (base s)"
  shows "Decode env index only_size s = Inr s \<and>
         (list_all is_decode_call acts \<longrightarrow> run env acts s = Inr s)"
  using assms by (simp add: Decode_def run_failed)

theorem C6_failed_session_is_absorbing_witness:
  "Failed (base (example_fresh\<lparr>base := SetFailed (base example_fresh)\<rparr>)) \<and>
   Decode env_complete 0 False (example_fresh\<lparr>base := SetFailed (base example_fresh)\<rparr>)
   = Inr (example_fresh\<lparr>base := SetFailed (base example_fresh)\<rparr>) \<and>
   run env_complete [Act_DecodeSize, Act_Decode 0]
     (example_fresh\<lparr>base := SetFailed (base example_fresh)\<rparr>)
   = Inr (example_fresh\<lparr>base := SetFailed (base example_fresh)\<rparr>)"
  using C6_failed_session_is_absorbing
    [of "example_fresh\<lparr>base := SetFailed (base example_fresh)\<rparr>" env_complete 0 False
        "[Act_DecodeSize, Act_Decode 0]"]
  by (simp add: Failed_def SetFailed_def)

subsection \<open>Signature detection\<close>

text \<open>
  C10. With fewer than four bytes in the window the answer is false, no bridge call is
  made and the answer does not depend on the engine; otherwise the answer is the engine's
  signature predicate on the first four bytes, asked once. The function is static: it is
  given no session and no engine state and returns none, so it can change neither.
\<close>

theorem C10_signature_detection:
  "fst (MatchesJPEGSignature env window) =
     (4 \<le> length window \<and> jpeg_rs_signature_check env (take 4 window)) \<and>
   snd (MatchesJPEGSignature env window) =
     (if length window < 4 then [] else [Call_signature_check]) \<and>
   (4 \<le> length window \<longrightarrow> length (take 4 window) = 4) \<and>
   (length window < 4 \<longrightarrow> MatchesJPEGSignature env' window = MatchesJPEGSignature env window)"
  by (simp add: MatchesJPEGSignature_def)

theorem C10_signature_detection_witness:
  "fst (MatchesJPEGSignature env_complete (soi_app0 @ [0, 16])) \<and>
   snd (MatchesJPEGSignature env_complete (soi_app0 @ [0, 16])) = [Call_signature_check] \<and>
   MatchesJPEGSignature env_complete [0xFF, 0xD8, 0xFF] = (False, [])"
proof -
  have long: "fst (MatchesJPEGSignature env_complete (soi_app0 @ [0, 16])) =
                jpeg_rs_signature_check env_complete (take 4 (soi_app0 @ [0, 16]))"
    and calls: "snd (MatchesJPEGSignature env_complete (soi_app0 @ [0, 16])) = [Call_signature_check]"
    using C10_signature_detection [of env_complete "soi_app0 @ [0, 16]" env_complete]
    by (simp_all add: soi_app0_def)
  have short: "fst (MatchesJPEGSignature env_complete [0xFF, 0xD8, 0xFF]) = False"
    and none: "snd (MatchesJPEGSignature env_complete [0xFF, 0xD8, 0xFF]) = []"
    using C10_signature_detection [of env_complete "[0xFF, 0xD8, 0xFF]" env_complete] by simp_all
  have "jpeg_rs_signature_check env_complete (take 4 (soi_app0 @ [0, 16]))"
    by (simp add: env_complete_def example_env_def soi_app0_def)
  with long calls short none show ?thesis by (simp add: prod_eq_iff)
qed

subsection \<open>Nothing left to offer\<close>

text \<open>
  C4. When \<^verbatim>\<open>data_size - input_offset_\<close> is zero the call returns the session as it
  was, or as it was but for the engine handle created on first use (recorded as the one
  bridge call \<open>Call_decoder_create\<close>): the state machine, the offset, the metadata flag
  and the frame buffers are unchanged and no other engine call is made, whether or not
  all data has been received. The first hypothesis is the constructor's state of a session
  that has no engine yet; it holds of every session reached from the constructor
  (\<open>without_engine_reachable\<close>).
\<close>

theorem C4_no_unconsumed_bytes:
  assumes "decoder s = None \<longrightarrow> decoder_state s = kInitial \<and> input_offset s = 0"
    and "of_nat (length (data (base s))) - input_offset s = 0"
  shows "Decode env index only_size s = Inr s \<or>
         (decoder s = None \<and> Decode env index only_size s =
            Inr (s\<lparr>decoder := Some (jpeg_rs_decoder_create env kMaxDecodedPixels),
                   bridge_calls := bridge_calls s @ [Call_decoder_create]\<rparr>))"
  using assms
  by (cases "decoder s") (auto simp: Decode_def ensure_decoder_def Let_def)

theorem C4_no_unconsumed_bytes_witness:
  "of_nat (length (data (base example_waiting))) - input_offset example_waiting = 0 \<and>
   IsAllDataReceived (base example_waiting) \<and>
   decoder_state example_waiting = kHaveBasicInfo \<and>
   Decode env_complete 0 False example_waiting = Inr example_waiting"
  using C4_no_unconsumed_bytes [of example_waiting env_complete 0 False]
  by (simp add: example_defs IsAllDataReceived_def)

subsection \<open>The offset and the end of the input\<close>

lemma offset_step:
  fixes off n :: size_t
  assumes "k + unat off \<le> len" and "len < 2 ^ 64" and "unat n \<le> k"
  shows "off \<le> off + n \<and> unat (off + n) \<le> len"
proof -
  from assms have "unat off + unat n < 2 ^ LENGTH(64)" by simp
  then have "unat (off + n) = unat off + unat n" by (rule unat_add_lem [THEN iffD1])
  with assms show ?thesis by (simp add: word_le_nat_alt)
qed

text \<open>
  A call that makes one engine operation (a size-only call, or a call that finds the
  session in \<^verbatim>\<open>kHaveBasicInfo\<close>) with an engine that reports no more bytes than it was
  offered: the offset does not decrease and stays within the bytes delivered.
\<close>

lemma offset_within_input:
  assumes "Decode env index only_size s = Inr s'"
    and "\<forall>e bytes a. unat (bytes_consumed (fst (parse_headers env e bytes a))) \<le> length bytes"
    and "\<forall>e bytes a out stride.
           unat (bytes_consumed (fst (decode_image_with_stride env e bytes a out stride))) \<le> length bytes"
    and "unat (input_offset s) \<le> length (data (base s))"
    and "length (data (base s)) < 2 ^ 64"
    and "decoder s = None \<longrightarrow> input_offset s = 0"
    and "only_size \<or> (decoder_state s = kHaveBasicInfo \<and> decoder s \<noteq> None)"
  shows "input_offset s \<le> input_offset s' \<and> unat (input_offset s') \<le> length (data (base s))"
proof -
  note ed = ensure_decoder_fields [of env s]
  from ed assms(6) have o0: "input_offset (ensure_decoder env s) = input_offset s"
    by (auto split: if_splits)
  from assms(1) show ?thesis
  proof (cases rule: Decode_Inr_cases)
    case early
    with assms(4) show ?thesis by simp
  next
    case idle
    with o0 assms(4) show ?thesis by simp
  next
    case (initial e input_slice)
    from initial(4) o0 have len: "length input_slice + unat (input_offset s) \<le> length (data (base s))"
      by simp
    from initial(2) ed assms(7) have only: only_size by (auto split: if_splits)
    from initial(3) show ?thesis
    proof (cases rule: Decode_kInitial_cases)
      case (error r)
      with o0 assms(4) show ?thesis by simp
    next
      case (more r)
      from more(10) assms(2) have "unat (bytes_consumed r) \<le> length input_slice" by simp
      from offset_step [OF len assms(5) this] more(4) o0 show ?thesis by simp
    next
      case (rejected r w h)
      from rejected(11) assms(2) have "unat (bytes_consumed r) \<le> length input_slice" by simp
      from offset_step [OF len assms(5) this] rejected(6) o0 show ?thesis by simp
    next
      case (accepted r w h b s4 e2)
      from accepted(14) assms(2) have "unat (bytes_consumed r) \<le> length input_slice" by simp
      from offset_step [OF len assms(5) this] accepted(9,13) only o0 show ?thesis by simp
    qed
  next
    case (pixels e input_slice)
    from pixels(5) o0 have len: "length input_slice + unat (input_offset s) \<le> length (data (base s))"
      by simp
    from Decode_kHaveBasicInfo_new_calls [OF pixels(4)] show ?thesis
    proof
      assume "bridge_calls s' = bridge_calls (ensure_decoder env s)"
      from Decode_kHaveBasicInfo_no_call [OF pixels(4) this] o0 assms(4) show ?thesis by simp
    next
      assume "\<exists>r. bridge_calls s' = bridge_calls (ensure_decoder env s) @ [Call_decode_image_with_stride r]"
      then obtain r where
        c: "bridge_calls s' = bridge_calls (ensure_decoder env s) @ [Call_decode_image_with_stride r]" ..
      from Decode_kHaveBasicInfo_result [OF pixels(4) c] assms(3)
      have "unat (bytes_consumed r) \<le> length input_slice" by auto
      from offset_step [OF len assms(5) this] have
        *: "input_offset s \<le> input_offset s + bytes_consumed r \<and>
            unat (input_offset s + bytes_consumed r) \<le> length (data (base s))" .
      from Decode_kHaveBasicInfo_called [OF pixels(4) c] o0
      have "input_offset s' = input_offset s + (if status r = Error then 0 else bytes_consumed r)"
        by simp
      with * assms(4) show ?thesis by (simp split: if_splits)
    qed
  qed
qed

text \<open>The scripted engine never reports more bytes than it was offered.\<close>

lemma example_env_within_offer:
  "unat (bytes_consumed (fst (parse_headers (example_env st1 n1 st2 n2 ok) e bytes a))) \<le> length bytes \<and>
   unat (bytes_consumed (fst (decode_image_with_stride (example_env st1 n1 st2 n2 ok) e bytes a out stride)))
     \<le> length bytes"
proof -
  have "unat (of_nat (min n (length bytes)) :: 64 word) \<le> min n (length bytes)" for n
    unfolding unat_of_nat by (rule mod_less_eq_dividend)
  then have "unat (of_nat (min n (length bytes)) :: 64 word) \<le> length bytes" for n
    by (rule order_trans) simp
  then show ?thesis by (simp add: example_env_def)
qed

text \<open>
  C7. A full decode of four bytes from the constructor's state. The header parse is offered
  the four bytes and consumes two; the pixel decode, in the same call, is offered the same
  four bytes (\<^verbatim>\<open>input_slice\<close> is computed once, before the \<^verbatim>\<open>switch\<close>) and consumes
  four (the engine state lists what each call was offered). Both counts are added: the
  offset is 6 with 4 bytes delivered, and the next call
  computes \<^verbatim>\<open>data_size - input_offset_\<close> as \<open>2 ^ 64 - 2\<close> and reads past the end.
\<close>

theorem C7_offset_passes_end_of_input:
  "\<not> isl (Decode env_overshoot 0 False example_fresh) \<and>
   bridge_calls (projr (Decode env_overshoot 0 False example_fresh)) =
     [Call_decoder_create, Call_parse_headers (process_result Success 2), Call_get_basic_info,
      Call_set_pixel_format Bgra8, Call_get_icc_profile,
      Call_decode_image_with_stride (process_result NeedMoreInput 4)] \<and>
   decoder (projr (Decode env_overshoot 0 False example_fresh)) = Some [4, 4] \<and>
   input_offset (projr (Decode env_overshoot 0 False example_fresh)) = 6 \<and>
   length (data (base (projr (Decode env_overshoot 0 False example_fresh)))) = 4 \<and>
   Decode env_overshoot 0 False (projr (Decode env_overshoot 0 False example_fresh)) =
     Inl ReadPastEnd"
  by (simp add: example_defs driver_defs Let_def word_gt_0)

end
